theory Spec2Isabelle
  imports Main
begin

section \<open>Values shared by the packages\<close>

text \<open>
  Go's \<^verbatim>\<open>error\<close> is a nilable interface: a value of type \<open>error option\<close>, with
  \<open>None\<close> for \<^verbatim>\<open>nil\<close>. The constructors are the errors the modelled code builds
  or passes on.
\<close>

datatype error =
    ServiceNil
  | HTTPInitFailed error
  | ListenFailed error
  | ListenerClosed
  | Canceled
  | DeadlineExceeded
  | Failure string

text \<open>
  A call either returns, panics (a nil pointer is dereferenced), blocks for ever, or
  ends the process (\<^verbatim>\<open>log.Fatal\<close>).
\<close>

datatype 'a outcome = Returns 'a | Panics | Blocks | Exits

fun and_then :: "'a outcome \<Rightarrow> ('a \<Rightarrow> 'b outcome) \<Rightarrow> 'b outcome" where
  "and_then (Returns x) f = f x"
| "and_then Panics f = Panics"
| "and_then Blocks f = Blocks"
| "and_then Exits f = Exits"

text \<open>
  The logger is an object of another repository. Its output is kept as the list of the
  calls made on it: level, format string, arguments. An argument that the model does not
  compute (the listener's address, the address after \<^verbatim>\<open>formatAddr\<close>, the text of an error)
  is kept symbolically. The logger itself is taken to be non-nil.
\<close>

datatype level = Info | Warn | Error

datatype arg = Str string | Addr | FormattedAddr | ErrArg "error option"

type_synonym entry = "level \<times> string \<times> arg list"

section \<open>Package route and package service\<close>

text \<open>
  \<^verbatim>\<open>route.Handler{Method, Path, Handler []gin.HandlerFunc}\<close>; a gin handler function is
  a value of the type parameter \<open>'h\<close>.
\<close>

record 'h Handler =
  Method :: string
  Path :: string
  Handler :: "'h list"

text \<open>
  \<^verbatim>\<open>service.Service\<close>, with the fields the modelled functions read. \<^verbatim>\<open>HTTPHandlers\<close> is a
  slice of pointers: an entry is \<open>None\<close> when the pointer is nil. The fields DB,
  ServiceConnections and Services are read by none of the modelled functions; Logger is
  the log above.
\<close>

record 'h Service =
  Port :: string
  HTTPHandlers :: "'h Handler option list"

section \<open>Package http: the constructor New\<close>

text \<open>
  The gin engine, as far as New touches it: the middleware attached with \<^verbatim>\<open>Use\<close> and
  the routes registered on the group, each as (method, group base path, relative path,
  handlers), in registration order.
\<close>

type_synonym 'h route = "string \<times> string \<times> string \<times> 'h list"

record 'h Engine =
  middleware :: "string list"
  routes :: "'h route list"

text \<open>
  gin's router is a dependency that is not among the sources. It is the parameter
  \<open>gin\<close> of the functions below: \<open>gin done r\<close> says whether the router, holding the
  routes \<open>done\<close>, takes the route \<open>r\<close>. Where it does not (the path is registered
  already for the method, or conflicts with a wildcard), \<^verbatim>\<open>group.GET\<close>, \<^verbatim>\<open>PUT\<close>,
  \<^verbatim>\<open>POST\<close> and \<^verbatim>\<open>DELETE\<close> panic.
\<close>

type_synonym 'h router = "'h route list \<Rightarrow> 'h route \<Rightarrow> bool"

text \<open>
  \<^verbatim>\<open>HTTPService{Engine, Server, Service}\<close>. \<open>Server_h\<close> is the \<^verbatim>\<open>http.Server\<close>, which holds
  the engine as its handler; \<open>Service_h\<close> is the service the constructor was given.
\<close>

record 'h HTTPService =
  Engine :: "'h Engine"
  Server_h :: "'h Engine"
  Service_h :: "'h Service"

text \<open>\<^verbatim>\<open>group.GET(route.Path, route.Handler...)\<close> and its three siblings.\<close>

definition handle ::
  "'h router \<Rightarrow> string \<Rightarrow> string \<Rightarrow> 'h Handler \<Rightarrow> 'h Engine \<Rightarrow> 'h Engine outcome"
where
  "handle gin m base r e =
     (if gin (routes e) (m, base, Path r, Handler r)
      then Returns (e\<lparr>routes := routes e @ [(m, base, Path r, Handler r)]\<rparr>)
      else Panics)"

definition warn_unrecognized :: "'h Handler \<Rightarrow> entry" where
  "warn_unrecognized r = (Warn, ''unrecognized HTTP method for route %s'', [Str (Path r)])"

text \<open>
  The loop of New over \<^verbatim>\<open>svc.HTTPHandlers\<close> (http.go, lines 32 to 45). Reading
  \<^verbatim>\<open>route.Method\<close> through a nil entry panics.
\<close>

fun register_routes ::
  "'h router \<Rightarrow> string \<Rightarrow> 'h Handler option list \<Rightarrow> 'h Engine \<Rightarrow> entry list \<Rightarrow>
     ('h Engine \<times> entry list) outcome"
where
  "register_routes gin base [] e lg = Returns (e, lg)"
| "register_routes gin base (None # rs) e lg = Panics"
| "register_routes gin base (Some r # rs) e lg =
     (if Method r = ''GET'' then
        and_then (handle gin ''GET'' base r e) (\<lambda>e'. register_routes gin base rs e' lg)
      else if Method r = ''PUT'' then
        and_then (handle gin ''PUT'' base r e) (\<lambda>e'. register_routes gin base rs e' lg)
      else if Method r = ''POST'' then
        and_then (handle gin ''POST'' base r e) (\<lambda>e'. register_routes gin base rs e' lg)
      else if Method r = ''DELETE'' then
        and_then (handle gin ''DELETE'' base r e) (\<lambda>e'. register_routes gin base rs e' lg)
      else register_routes gin base rs e (lg @ [warn_unrecognized r]))"

definition new_engine :: "'h Engine" where
  "new_engine = \<lparr>middleware = [''GinContextToContextMiddleware'', ''Recovery''], routes = []\<rparr>"

text \<open>
  \<^verbatim>\<open>http.New(svc, version)\<close> (http.go, lines 22 to 54). The result is Go's pair
  (\<^verbatim>\<open>*HTTPService\<close>, \<^verbatim>\<open>error\<close>) and the log after the call.
\<close>

definition http_New ::
  "'h router \<Rightarrow> 'h Service option \<Rightarrow> string \<Rightarrow> entry list \<Rightarrow>
     (('h HTTPService option \<times> error option) \<times> entry list) outcome"
where
  "http_New gin svc version lg =
     (case svc of
        None \<Rightarrow> Returns ((None, Some ServiceNil), lg)
      | Some sv \<Rightarrow>
          and_then (register_routes gin (''/api/'' @ version) (HTTPHandlers sv) new_engine lg)
            (\<lambda>(e, lg'). Returns ((Some \<lparr>Engine = e, Server_h = e, Service_h = sv\<rparr>, None), lg')))"

text \<open>
  The older constructor (second variant in http.go): no nil check, so reading
  \<^verbatim>\<open>svc.HTTPHandlers\<close> through a nil service panics; the switch has no default
  branch. The older handler type names its method field \<^verbatim>\<open>Type\<close>; it is the field
  \<open>Method\<close> here.
\<close>

fun register_routes_old ::
  "'h router \<Rightarrow> string \<Rightarrow> 'h Handler option list \<Rightarrow> 'h Engine \<Rightarrow> 'h Engine outcome"
where
  "register_routes_old gin base [] e = Returns e"
| "register_routes_old gin base (None # rs) e = Panics"
| "register_routes_old gin base (Some r # rs) e =
     (if Method r = ''GET'' then
        and_then (handle gin ''GET'' base r e) (register_routes_old gin base rs)
      else if Method r = ''PUT'' then
        and_then (handle gin ''PUT'' base r e) (register_routes_old gin base rs)
      else if Method r = ''POST'' then
        and_then (handle gin ''POST'' base r e) (register_routes_old gin base rs)
      else if Method r = ''DELETE'' then
        and_then (handle gin ''DELETE'' base r e) (register_routes_old gin base rs)
      else register_routes_old gin base rs e)"

definition http_New_old ::
  "'h router \<Rightarrow> 'h Service option \<Rightarrow> string \<Rightarrow> ('h HTTPService option \<times> error option) outcome"
where
  "http_New_old gin svc version =
     (case svc of
        None \<Rightarrow> Panics
      | Some sv \<Rightarrow>
          and_then (register_routes_old gin (''/api/'' @ version) (HTTPHandlers sv) new_engine)
            (\<lambda>e. Returns (Some \<lparr>Engine = e, Server_h = e, Service_h = sv\<rparr>, None)))"

section \<open>Package server: the state\<close>

text \<open>
  Modelled from the spec: the root listener, a \<^verbatim>\<open>net.Listener\<close> of the standard library,
  which is not among the sources. \<^verbatim>\<open>Close\<close> closes it, and a close of a listener that is
  closed already is the double-close error of the spec. \<open>closes\<close> records what each call
  of \<^verbatim>\<open>s.Listener.Close()\<close> that the repository's own code makes (part_001, lines 60
  and 113) returned, in order; the code reads none of it.
\<close>

record listener =
  is_closed :: bool
  closes :: "error option list"

definition Close :: "listener \<Rightarrow> listener \<times> error option" where
  "Close l =
     (let r = (if is_closed l then Some ListenerClosed else None)
      in (l\<lparr>is_closed := True, closes := closes l @ [r]\<rparr>, r))"

text \<open>
  The listeners that cmux hands out embed the root listener, so a server that closes the
  listener it serves on closes the root listener. gRPC does so in \<^verbatim>\<open>GracefulStop\<close> and
  when its \<^verbatim>\<open>Serve\<close> returns, net/http when its \<^verbatim>\<open>Serve\<close> returns. These are calls of
  the dependencies, not of the repository: they close the listener and leave \<open>closes\<close>
  as it is.
\<close>

definition library_close :: "listener \<Rightarrow> listener" where
  "library_close l = l\<lparr>is_closed := True\<rparr>"

text \<open>\<^verbatim>\<open>GRPCService\<close>: whether its \<^verbatim>\<open>grpc.Server\<close> has been told to stop.\<close>

record GRPCService =
  stopped :: bool

text \<open>The concurrent units that Run hands to the errgroup.\<close>

datatype task = GRPCServe | HTTPServe | CmuxServe

text \<open>
  The matchers of cmux that Run names. A call of \<^verbatim>\<open>m.Match\<close> or \<^verbatim>\<open>m.MatchWithWriters\<close>
  registers one rule, a list of matchers, on the multiplexer; what cmux does with the
  rules is cmux's own code.
\<close>

datatype matcher = HTTP2MatchHeaderFieldSendSettings string string | HTTP1Fast

text \<open>
  The first five fields are the fields of the struct \<^verbatim>\<open>Server\<close>; \<open>cancel\<close> says whether
  \<^verbatim>\<open>s.cancel\<close> is non-nil. New gives the GRPCService the same service pointer as the
  Server, so the model keeps one. The other fields are the state of what Run and
  Shutdown create:
  \<^item> \<open>ctx_done\<close>: the context of the errgroup is done. It is derived from the context
    that \<^verbatim>\<open>s.cancel\<close> cancels, which is derived from the caller's, so cancelling any
    of the three sets it; nothing reads the two outer contexts on their own.
  \<^item> \<open>rules\<close>: the rules registered on the multiplexer \<^verbatim>\<open>m\<close> of Run, in order.
  \<^item> \<open>wg\<close>: the units handed to \<^verbatim>\<open>g.Go\<close> that have not returned; \<open>started\<close>: those
    of them whose goroutine has run up to the call of its server's \<^verbatim>\<open>Serve\<close>;
    \<open>err\<close>: the errgroup's first error.
  \<^item> \<open>watchers\<close>: goroutines of lines 57 to 61 still waiting on \<^verbatim>\<open>ctx.Done()\<close>;
    \<open>stoppers\<close>: goroutines of lines 111 to 115 that a Shutdown left behind when it
    returned on its deadline.
  \<^item> \<open>logged\<close>: the output of the service's logger.
  The model follows one invocation of Run on a Server.
\<close>

record 'h Server =
  GRPCServer :: GRPCService
  Listener :: listener
  Service :: "'h Service option"
  Version :: string
  cancel :: bool
  ctx_done :: bool
  rules :: "matcher list list"
  wg :: "task list"
  started :: "task list"
  err :: "error option"
  watchers :: nat
  stoppers :: nat
  logged :: "entry list"

text \<open>\<^verbatim>\<open>s.Service.Logger.Info/Warn/Error(format, args...)\<close>: panics when the service is nil.\<close>

definition logf :: "level \<Rightarrow> string \<Rightarrow> arg list \<Rightarrow> 'h Server \<Rightarrow> 'h Server outcome" where
  "logf lv fmt args s =
     (case Service s of
        None \<Rightarrow> Panics
      | Some sv \<Rightarrow> Returns (s\<lparr>logged := logged s @ [(lv, fmt, args)]\<rparr>))"

text \<open>
  \<^verbatim>\<open>server.New(svc, version)\<close> (part_001, lines 28 to 46). \<open>listen\<close> is the error of
  \<^verbatim>\<open>net.Listen\<close>; \<^verbatim>\<open>grpcsvc.New\<close> logs one line.
\<close>

definition server_New ::
  "'h Service option \<Rightarrow> string \<Rightarrow> error option \<Rightarrow> entry list \<Rightarrow> 'h Server option \<times> error option"
where
  "server_New svc version listen lg =
     (case svc of
        None \<Rightarrow> (None, Some ServiceNil)
      | Some sv \<Rightarrow>
          (case listen of
             Some e \<Rightarrow> (None, Some (ListenFailed e))
           | None \<Rightarrow>
               (Some \<lparr>GRPCServer = \<lparr>stopped = False\<rparr>,
                      Listener = \<lparr>is_closed = False, closes = []\<rparr>,
                      Service = Some sv, Version = version, cancel = False,
                      ctx_done = False, rules = [], wg = [], started = [], err = None,
                      watchers = 0, stoppers = 0,
                      logged = lg @ [(Info, ''gRPC reflection enabled'', [])]\<rparr>,
                None)))"

section \<open>Package server: Run\<close>

text \<open>The rule of lines 64 to 67 (and 168 to 171).\<close>

definition grpc_rule :: "matcher list" where
  "grpc_rule =
     [HTTP2MatchHeaderFieldSendSettings ''content-type'' ''application/grpc'',
      HTTP2MatchHeaderFieldSendSettings ''content-type'' ''application/grpc+proto'']"

text \<open>\<^verbatim>\<open>os.Getenv\<close>: the value of the variable, empty when it is not set.\<close>

definition Getenv :: "(string \<rightharpoonup> string) \<Rightarrow> string \<Rightarrow> string" where
  "Getenv env k = (case env k of None \<Rightarrow> [] | Some v \<Rightarrow> v)"

text \<open>
  Lines 50 to 96 of Run: everything before \<^verbatim>\<open>g.Wait()\<close>. The second component of the
  result is the error of the early return of line 80, \<open>None\<close> when Run goes on to wait.
\<close>

definition Run_spawn ::
  "'h router \<Rightarrow> (string \<rightharpoonup> string) \<Rightarrow> 'h Server \<Rightarrow> ('h Server \<times> error option) outcome"
where
  "Run_spawn gin env s =
     (let s0 = s\<lparr>cancel := True, ctx_done := False, rules := [], wg := [], started := [],
                 err := None\<rparr>;
          protocol = Getenv env ''SERVICE_PROTOCOL'';
          s1 = s0\<lparr>watchers := Suc (watchers s0)\<rparr>;
          s2 = (if protocol \<noteq> ''http''
                then s1\<lparr>rules := rules s1 @ [grpc_rule], wg := wg s1 @ [GRPCServe]\<rparr> else s1)
      in and_then
           (if protocol \<noteq> ''grpc'' then
              (let s2h = s2\<lparr>rules := rules s2 @ [[HTTP1Fast]]\<rparr>
               in and_then (http_New gin (Service s2h) (Version s2h) (logged s2h))
                    (\<lambda>((h, e), lg).
                       case e of
                         Some x \<Rightarrow> Returns (s2h\<lparr>logged := lg\<rparr>, Some (HTTPInitFailed x))
                       | None \<Rightarrow>
                           Returns (s2h\<lparr>logged := lg, wg := wg s2h @ [HTTPServe]\<rparr>, None)))
            else Returns (s2, None))
           (\<lambda>(s3, early).
              case early of
                Some x \<Rightarrow> Returns (s3, Some x)
              | None \<Rightarrow> Returns (s3\<lparr>wg := wg s3 @ [CmuxServe]\<rparr>, None)))"

text \<open>
  The goroutine of lines 57 to 61, once the context is done: it closes the listener and
  drops the error.
\<close>

definition watcher :: "'h Server \<Rightarrow> 'h Server outcome" where
  "watcher s =
     (if ctx_done s \<and> 0 < watchers s then
        and_then (logf Warn ''context canceled, closing listener'' [] s)
          (\<lambda>s1. Returns (s1\<lparr>Listener := fst (Close (Listener s1)), watchers := watchers s1 - 1\<rparr>))
      else Returns s)"

text \<open>
  The three closures given to \<^verbatim>\<open>g.Go\<close> (lines 68 to 73, 82 to 87, 91 to 96), each in
  two parts. \<open>task_start\<close> is the closure up to the point where the server's own
  \<^verbatim>\<open>Serve\<close> is running: its first log line and, for gRPC and HTTP, the log line of
  \<^verbatim>\<open>GRPCService.Serve\<close> and of \<^verbatim>\<open>HTTPService.ListenAndServe\<close>.
\<close>

fun task_start :: "task \<Rightarrow> 'h Server \<Rightarrow> 'h Server outcome" where
  "task_start GRPCServe s =
     and_then (logf Info ''gRPC service available on %s'' [Addr] s) (\<lambda>s1.
     logf Info ''gRPC server listening on %s'' [Addr] s1)"
| "task_start HTTPServe s =
     and_then (logf Info ''HTTP service available on %s'' [Addr] s) (\<lambda>s1.
     logf Info ''HTTP server listening on %s'' [FormattedAddr] s1)"
| "task_start CmuxServe s = logf Info ''cmux serving connections'' [] s"

text \<open>
  \<open>task_return\<close> is the rest of the closure, for the value \<open>e\<close> that the server's
  \<^verbatim>\<open>Serve\<close> returns: the servers are gRPC's, net/http's and cmux's, and \<open>e\<close> is what
  the closure returns. gRPC's and net/http's \<^verbatim>\<open>Serve\<close> have closed their listener, and
  with it the root listener, when they return.
\<close>

fun task_return :: "task \<Rightarrow> error option \<Rightarrow> 'h Server \<Rightarrow> 'h Server outcome" where
  "task_return GRPCServe e s =
     logf Warn ''gRPC server stopped: %v'' [ErrArg e] (s\<lparr>Listener := library_close (Listener s)\<rparr>)"
| "task_return HTTPServe e s =
     logf Warn ''HTTP server stopped: %v'' [ErrArg e] (s\<lparr>Listener := library_close (Listener s)\<rparr>)"
| "task_return CmuxServe e s = logf Warn ''cmux stopped: %v'' [ErrArg e] s"

text \<open>
  Modelled from the spec: the errgroup (\<^verbatim>\<open>golang.org/x/sync/errgroup\<close>, a dependency
  that is not among the sources), as sections 4.5 and 9 describe the supervisory group: a
  shared cancellation token, one slot holding the first error, and a join barrier that
  waits for all spawned units. When a closure returns \<open>e\<close>, the first non-nil error is
  kept and cancels the group's context; the unit is done.
\<close>

definition group_done :: "task \<Rightarrow> error option \<Rightarrow> 'h Server \<Rightarrow> 'h Server" where
  "group_done t e s =
     (let s1 = (case e of
                  None \<Rightarrow> s
                | Some x \<Rightarrow> (case err s of None \<Rightarrow> s\<lparr>err := Some x, ctx_done := True\<rparr> | Some y \<Rightarrow> s))
      in s1\<lparr>wg := remove1 t (wg s1)\<rparr>)"

text \<open>
  What happens while Run waits: the caller's context is cancelled, the watcher
  goroutine is scheduled, the goroutine of a unit is scheduled and gets to its server's
  \<^verbatim>\<open>Serve\<close>, or a unit returns. A unit that returns without having been seen to start
  starts and returns in one step. An event for a unit that is not running, or a start of
  a unit that has started, changes nothing.
\<close>

datatype event = Cancel | WatcherRuns | TaskStart task | TaskReturn task "error option"

fun step :: "event \<Rightarrow> 'h Server \<Rightarrow> 'h Server outcome" where
  "step Cancel s = Returns (s\<lparr>ctx_done := True\<rparr>)"
| "step WatcherRuns s = watcher s"
| "step (TaskStart t) s =
     (if t \<in> set (wg s) \<and> t \<notin> set (started s) then
        and_then (task_start t s) (\<lambda>s1. Returns (s1\<lparr>started := started s1 @ [t]\<rparr>))
      else Returns s)"
| "step (TaskReturn t e) s =
     (if t \<in> set (wg s) then
        and_then (if t \<in> set (started s) then Returns s else task_start t s) (\<lambda>s1.
        and_then (task_return t e s1) (\<lambda>s2.
        Returns ((group_done t e s2)\<lparr>started := removeAll t (started s2)\<rparr>)))
      else Returns s)"

fun run_events :: "event list \<Rightarrow> 'h Server \<Rightarrow> 'h Server outcome" where
  "run_events [] s = Returns s"
| "run_events (ev # evs) s = and_then (step ev s) (run_events evs)"

text \<open>
  Lines 98 to 102. \<^verbatim>\<open>g.Wait()\<close> is the join barrier of the errgroup: it returns when
  every unit has returned, cancels the group's context and gives the first error. Run
  logs the error when the context is not done, and returns it.
\<close>

definition Run_wait :: "'h Server \<Rightarrow> ('h Server \<times> error option) outcome" where
  "Run_wait s =
     (if wg s \<noteq> [] then Blocks
      else
        (let s1 = s\<lparr>ctx_done := True\<rparr>
         in if err s1 \<noteq> None \<and> \<not> ctx_done s1 then
              and_then (logf Error ''server run terminated: %v'' [ErrArg (err s1)] s1)
                (\<lambda>s2. Returns (s2, err s2))
            else Returns (s1, err s1)))"

text \<open>\<^verbatim>\<open>Run(ctx)\<close>, with the events \<open>evs\<close> that happen while it waits.\<close>

definition Run ::
  "'h router \<Rightarrow> (string \<rightharpoonup> string) \<Rightarrow> event list \<Rightarrow> 'h Server \<Rightarrow>
     ('h Server \<times> error option) outcome"
where
  "Run gin env evs s =
     and_then (Run_spawn gin env s)
       (\<lambda>(s1, early).
          case early of
            Some x \<Rightarrow> Returns (s1, Some x)
          | None \<Rightarrow> and_then (run_events evs s1) Run_wait)"

text \<open>
  The older Run (part_001, lines 163 to 187), up to its \<^verbatim>\<open>g.Wait()\<close>: it has no
  context and no watcher, reads the environment twice, and ends the process with
  \<^verbatim>\<open>log.Fatal\<close> when the HTTP service cannot be created.
\<close>

definition Run_old_spawn ::
  "'h router \<Rightarrow> (string \<rightharpoonup> string) \<Rightarrow> 'h Server \<Rightarrow> 'h Server outcome"
where
  "Run_old_spawn gin env s =
     (let s0 = s\<lparr>rules := [], wg := [], started := [], err := None\<rparr>;
          s1 = (if Getenv env ''SERVICE_PROTOCOL'' \<noteq> ''http''
                then s0\<lparr>rules := rules s0 @ [grpc_rule], wg := wg s0 @ [GRPCServe]\<rparr> else s0)
      in if Getenv env ''SERVICE_PROTOCOL'' \<noteq> ''grpc'' then
           (let s1h = s1\<lparr>rules := rules s1 @ [[HTTP1Fast]]\<rparr>
            in and_then (http_New_old gin (Service s1h) (Version s1h))
                 (\<lambda>(h, e).
                    case e of
                      Some x \<Rightarrow> Exits
                    | None \<Rightarrow> Returns (s1h\<lparr>wg := wg s1h @ [HTTPServe, CmuxServe]\<rparr>)))
         else Returns s1)"

section \<open>Package server: Shutdown\<close>

text \<open>
  \<^verbatim>\<open>GRPCService.GracefulStop\<close> (part_000, lines 51 to 54). gRPC's own
  \<^verbatim>\<open>GracefulStop\<close> closes the listeners it serves on: when the gRPC unit of Run is
  serving, that closes the root listener.
\<close>

definition GracefulStop :: "'h Server \<Rightarrow> 'h Server outcome" where
  "GracefulStop s =
     and_then (logf Info ''Stopping gRPC server...'' [] s)
       (\<lambda>s1. Returns
          (s1\<lparr>GRPCServer := (GRPCServer s1)\<lparr>stopped := True\<rparr>,
              Listener := (if GRPCServe \<in> set (started s1) then library_close (Listener s1)
                           else Listener s1)\<rparr>))"

text \<open>The goroutine of lines 111 to 115, run to its end.\<close>

definition stop_goroutine :: "'h Server \<Rightarrow> 'h Server outcome" where
  "stop_goroutine s =
     and_then (GracefulStop s)
       (\<lambda>s1. Returns (s1\<lparr>Listener := fst (Close (Listener s1))\<rparr>))"

text \<open>
  Which case of the \<^verbatim>\<open>select\<close> of lines 116 to 123 is taken: the goroutine closes
  \<^verbatim>\<open>done\<close> first, the caller's context is done first (with its \<^verbatim>\<open>ctx.Err()\<close>), or
  neither ever happens.
\<close>

datatype select_case = DoneFirst | CtxDoneFirst error | Neither

text \<open>\<^verbatim>\<open>Shutdown(ctx)\<close> (part_001, lines 106 to 124).\<close>

definition Shutdown :: "select_case \<Rightarrow> 'h Server \<Rightarrow> ('h Server \<times> error option) outcome" where
  "Shutdown sel s =
     (let s1 = (if cancel s then s\<lparr>ctx_done := True\<rparr> else s)
      in case sel of
           DoneFirst \<Rightarrow>
             and_then (stop_goroutine s1) (\<lambda>s2.
             and_then (logf Info ''server shutdown complete'' [] s2) (\<lambda>s3.
             Returns (s3, None)))
         | CtxDoneFirst e \<Rightarrow>
             and_then (logf Warn ''server shutdown timed out'' [] (s1\<lparr>stoppers := Suc (stoppers s1)\<rparr>))
               (\<lambda>s2. Returns (s2, Some e))
         | Neither \<Rightarrow> Blocks)"

text \<open>A goroutine that a Shutdown left behind runs to its end.\<close>

definition stopper :: "'h Server \<Rightarrow> 'h Server outcome" where
  "stopper s =
     (if 0 < stoppers s then
        and_then (stop_goroutine s) (\<lambda>s1. Returns (s1\<lparr>stoppers := stoppers s1 - 1\<rparr>))
      else Returns s)"

section \<open>Notions used in the statements\<close>

text \<open>The methods that the switch of \<^verbatim>\<open>http.New\<close> is said to recognise.\<close>

definition recognized :: "string \<Rightarrow> bool" where
  "recognized m = (m = ''GET'' \<or> m = ''PUT'' \<or> m = ''POST'' \<or> m = ''DELETE'')"

text \<open>
  The routes that a handler list asks for, in order, and whether the router takes them
  one after the other. A service initialises when its handler list holds no nil entry
  and the router takes every route it asks for.
\<close>

definition registrations :: "string \<Rightarrow> 'h Handler option list \<Rightarrow> 'h route list" where
  "registrations base rs =
     map (\<lambda>r. (Method r, base, Path r, Handler r))
       (filter (\<lambda>r. recognized (Method r)) (map the rs))"

fun accepted :: "'h router \<Rightarrow> 'h route list \<Rightarrow> 'h route list \<Rightarrow> bool" where
  "accepted gin done [] = True"
| "accepted gin done (r # rs) = (gin done r \<and> accepted gin (done @ [r]) rs)"

definition initialises :: "'h router \<Rightarrow> string \<Rightarrow> 'h Service \<Rightarrow> bool" where
  "initialises gin version sv =
     (None \<notin> set (HTTPHandlers sv) \<and>
      accepted gin [] (registrations (''/api/'' @ version) (HTTPHandlers sv)))"

text \<open>The units that return in a list of events, in order, and the first non-nil error
  that one of them returns.\<close>

fun returned :: "event list \<Rightarrow> task list" where
  "returned [] = []"
| "returned (TaskReturn t e # evs) = t # returned evs"
| "returned (ev # evs) = returned evs"

fun first_error :: "event list \<Rightarrow> error option" where
  "first_error [] = None"
| "first_error (TaskReturn t (Some x) # evs) = Some x"
| "first_error (ev # evs) = first_error evs"

text \<open>The units of each protocol mode, as the value of \<^verbatim>\<open>SERVICE_PROTOCOL\<close> selects it.\<close>

definition mode_units :: "string \<Rightarrow> task list" where
  "mode_units p =
     (if p = ''http'' then [HTTPServe, CmuxServe]
      else if p = ''grpc'' then [GRPCServe, CmuxServe]
      else [GRPCServe, HTTPServe, CmuxServe])"

text \<open>The value a call returns, and the units in the errgroup after the lines before
  \<^verbatim>\<open>g.Wait()\<close>.\<close>

definition result_of :: "('s \<times> 'r) outcome \<Rightarrow> 'r outcome" where
  "result_of x = and_then x (\<lambda>(s, r). Returns r)"

definition spawned :: "('h Server \<times> error option) outcome \<Rightarrow> task list outcome" where
  "spawned x = and_then x (\<lambda>(s, early). Returns (wg s))"

text \<open>\<open>n\<close> calls of Shutdown one after the other, each returning through \<^verbatim>\<open>done\<close>.\<close>

fun shutdowns :: "nat \<Rightarrow> 'h Server \<Rightarrow> 'h Server outcome" where
  "shutdowns 0 s = Returns s"
| "shutdowns (Suc n) s = and_then (Shutdown DoneFirst s) (\<lambda>(s', r). shutdowns n s')"

section \<open>Example inputs\<close>

text \<open>
  A router that, as gin's does, refuses a path that is registered already for the
  method. The examples have no wildcard paths.
\<close>

definition fresh_route :: "'h router" where
  "fresh_route done r =
     ((fst r, fst (snd r), fst (snd (snd r))) \<notin>
        (\<lambda>q. (fst q, fst (snd q), fst (snd (snd q)))) ` set done)"

text \<open>
  The service of the tests (\<^verbatim>\<open>newMockService\<close> in http_test.go: one GET route
  \<^verbatim>\<open>/ping\<close>, port 0) and the Server that \<^verbatim>\<open>server.New\<close> builds from it.
\<close>

definition ping :: "nat Handler" where
  "ping = \<lparr>Method = ''GET'', Path = ''/ping'', Handler = [0]\<rparr>"

definition mock_service :: "nat Service" where
  "mock_service = \<lparr>Port = ''0'', HTTPHandlers = [Some ping]\<rparr>"

definition mock_server :: "nat Server" where
  "mock_server =
     \<lparr>GRPCServer = \<lparr>stopped = False\<rparr>, Listener = \<lparr>is_closed = False, closes = []\<rparr>,
      Service = Some mock_service, Version = ''v1'', cancel = False, ctx_done = False,
      rules = [], wg = [], started = [], err = None, watchers = 0, stoppers = 0,
      logged = [(Info, ''gRPC reflection enabled'', [])]\<rparr>"

text \<open>The mock server when Run, with \<^verbatim>\<open>SERVICE_PROTOCOL\<close> not set, has reached
  \<^verbatim>\<open>g.Wait()\<close>.\<close>

definition mock_running :: "nat Server" where
  "mock_running =
     mock_server\<lparr>cancel := True, rules := [grpc_rule, [HTTP1Fast]],
       wg := [GRPCServe, HTTPServe, CmuxServe], watchers := 1\<rparr>"

text \<open>The three units get to their servers' \<^verbatim>\<open>Serve\<close>.\<close>

definition starting_events :: "event list" where
  "starting_events = [TaskStart GRPCServe, TaskStart HTTPServe, TaskStart CmuxServe]"

text \<open>The mock server when the three units have got to their servers' \<^verbatim>\<open>Serve\<close>.\<close>

definition mock_serving :: "nat Server" where
  "mock_serving =
     mock_running\<lparr>started := [GRPCServe, HTTPServe, CmuxServe],
       logged := logged mock_running @
         [(Info, ''gRPC service available on %s'', [Addr]),
          (Info, ''gRPC server listening on %s'', [Addr]),
          (Info, ''HTTP service available on %s'', [Addr]),
          (Info, ''HTTP server listening on %s'', [FormattedAddr]),
          (Info, ''cmux serving connections'', [])]\<rparr>"

text \<open>The watcher runs, then every unit returns the error of a closed listener.\<close>

definition closing_events :: "event list" where
  "closing_events =
     [WatcherRuns, TaskReturn CmuxServe (Some ListenerClosed),
      TaskReturn HTTPServe (Some ListenerClosed), TaskReturn GRPCServe (Some ListenerClosed)]"

section \<open>Lemmas about the model\<close>

lemma and_then_Returns:
  "and_then x f = Returns y \<longleftrightarrow> (\<exists>a. x = Returns a \<and> f a = Returns y)"
  by (cases x) auto

lemma registrations_Cons:
  "registrations base (Some r # rs) =
     (if recognized (Method r) then (Method r, base, Path r, Handler r) # registrations base rs
      else registrations base rs)"
  by (simp add: registrations_def)

lemma register_routes_eq:
  "None \<notin> set rs \<Longrightarrow>
   register_routes gin base rs e lg =
     (if accepted gin (routes e) (registrations base rs)
      then Returns (e\<lparr>routes := routes e @ registrations base rs\<rparr>,
                    lg @ map warn_unrecognized (filter (\<lambda>r. \<not> recognized (Method r)) (map the rs)))
      else Panics)"
proof (induction rs arbitrary: e lg)
  case Nil
  then show ?case by (simp add: registrations_def)
next
  case (Cons a rs)
  then obtain r where a: "a = Some r" by (cases a) auto
  from Cons.prems have rest: "None \<notin> set rs" by simp
  show ?case
  proof (cases "recognized (Method r)")
    case False
    then show ?thesis
      unfolding a using Cons.IH [OF rest]
      by (simp add: registrations_Cons) (simp add: recognized_def)
  next
    case True
    let ?q = "(Method r, base, Path r, Handler r)"
    show ?thesis
    proof (cases "gin (routes e) ?q")
      case False
      with True show ?thesis
        unfolding a by (auto simp: registrations_Cons recognized_def handle_def)
    next
      case yes: True
      have "register_routes gin base (Some r # rs) e lg =
              register_routes gin base rs (e\<lparr>routes := routes e @ [?q]\<rparr>) lg"
        using True yes by (auto simp: recognized_def handle_def)
      then show ?thesis
        unfolding a using True yes Cons.IH [OF rest, of "e\<lparr>routes := routes e @ [?q]\<rparr>" lg]
        by (simp add: registrations_Cons)
    qed
  qed
qed

lemma register_routes_panics:
  "None \<in> set rs \<Longrightarrow> register_routes gin base rs e lg = Panics"
proof (induction rs arbitrary: e lg)
  case Nil
  then show ?case by simp
next
  case (Cons a rs)
  show ?case
  proof (cases a)
    case None
    then show ?thesis by simp
  next
    case (Some r)
    with Cons.prems have "None \<in> set rs" by simp
    from Cons.IH [OF this] show ?thesis
      unfolding Some by (cases "gin (routes e) (Method r, base, Path r, Handler r)")
        (simp_all add: handle_def)
  qed
qed

lemma register_routes_old_eq:
  "None \<notin> set rs \<Longrightarrow>
   register_routes_old gin base rs e =
     (if accepted gin (routes e) (registrations base rs)
      then Returns (e\<lparr>routes := routes e @ registrations base rs\<rparr>)
      else Panics)"
proof (induction rs arbitrary: e)
  case Nil
  then show ?case by (simp add: registrations_def)
next
  case (Cons a rs)
  then obtain r where a: "a = Some r" by (cases a) auto
  from Cons.prems have rest: "None \<notin> set rs" by simp
  show ?case
  proof (cases "recognized (Method r)")
    case False
    then show ?thesis
      unfolding a using Cons.IH [OF rest]
      by (simp add: registrations_Cons) (simp add: recognized_def)
  next
    case True
    let ?q = "(Method r, base, Path r, Handler r)"
    show ?thesis
    proof (cases "gin (routes e) ?q")
      case False
      with True show ?thesis
        unfolding a by (auto simp: registrations_Cons recognized_def handle_def)
    next
      case yes: True
      have "register_routes_old gin base (Some r # rs) e =
              register_routes_old gin base rs (e\<lparr>routes := routes e @ [?q]\<rparr>)"
        using True yes by (auto simp: recognized_def handle_def)
      then show ?thesis
        unfolding a using True yes Cons.IH [OF rest, of "e\<lparr>routes := routes e @ [?q]\<rparr>"]
        by (simp add: registrations_Cons)
    qed
  qed
qed

lemma register_routes_old_panics:
  "None \<in> set rs \<Longrightarrow> register_routes_old gin base rs e = Panics"
proof (induction rs arbitrary: e)
  case Nil
  then show ?case by simp
next
  case (Cons a rs)
  show ?case
  proof (cases a)
    case None
    then show ?thesis by simp
  next
    case (Some r)
    with Cons.prems have "None \<in> set rs" by simp
    from Cons.IH [OF this] show ?thesis
      unfolding Some by (cases "gin (routes e) (Method r, base, Path r, Handler r)")
        (simp_all add: handle_def)
  qed
qed

lemma http_New_None: "http_New gin None version lg = Returns ((None, Some ServiceNil), lg)"
  by (simp add: http_New_def)

lemma http_New_Some:
  "http_New gin (Some sv) version lg =
     (if initialises gin version sv then
        Returns
          ((Some \<lparr>Engine = new_engine\<lparr>routes :=
                     registrations (''/api/'' @ version) (HTTPHandlers sv)\<rparr>,
                   Server_h = new_engine\<lparr>routes :=
                     registrations (''/api/'' @ version) (HTTPHandlers sv)\<rparr>,
                   Service_h = sv\<rparr>, None),
           lg @ map warn_unrecognized
                  (filter (\<lambda>r. \<not> recognized (Method r)) (map the (HTTPHandlers sv))))
      else Panics)"
proof (cases "None \<in> set (HTTPHandlers sv)")
  case True
  then show ?thesis
    by (simp add: http_New_def register_routes_panics initialises_def)
next
  case False
  then show ?thesis
    by (simp add: http_New_def register_routes_eq initialises_def new_engine_def)
qed

lemma http_New_old_Some:
  "http_New_old gin (Some sv) version =
     (if initialises gin version sv then
        Returns (Some \<lparr>Engine = new_engine\<lparr>routes :=
                          registrations (''/api/'' @ version) (HTTPHandlers sv)\<rparr>,
                        Server_h = new_engine\<lparr>routes :=
                          registrations (''/api/'' @ version) (HTTPHandlers sv)\<rparr>,
                        Service_h = sv\<rparr>, None)
      else Panics)"
proof (cases "None \<in> set (HTTPHandlers sv)")
  case True
  then show ?thesis
    by (simp add: http_New_old_def register_routes_old_panics initialises_def)
next
  case False
  then show ?thesis
    by (simp add: http_New_old_def register_routes_old_eq initialises_def new_engine_def)
qed

lemma logf_Some:
  "Service s = Some sv \<Longrightarrow> logf lv f a s = Returns (s\<lparr>logged := logged s @ [(lv, f, a)]\<rparr>)"
  by (simp add: logf_def)

lemma task_start_Some:
  "Service s = Some sv \<Longrightarrow> \<exists>lg. task_start t s = Returns (s\<lparr>logged := lg\<rparr>)"
  by (cases t) (auto simp: logf_def)

lemma task_return_Some:
  "Service s = Some sv \<Longrightarrow>
   \<exists>s'. task_return t e s = Returns s' \<and> Service s' = Some sv \<and> wg s' = wg s \<and>
        err s' = err s \<and> started s' = started s"
  by (cases t) (auto simp: logf_def)

lemma watcher_Some:
  "Service s = Some sv \<Longrightarrow>
   \<exists>s'. watcher s = Returns s' \<and> Service s' = Some sv \<and> wg s' = wg s \<and> err s' = err s"
  by (simp add: watcher_def logf_def)

lemma step_TaskStart:
  assumes "Service s = Some sv"
  shows "\<exists>s'. step (TaskStart t) s = Returns s' \<and> Service s' = Some sv \<and>
           wg s' = wg s \<and> err s' = err s"
proof -
  from task_start_Some [OF assms] obtain lg where
    "task_start t s = Returns (s\<lparr>logged := lg\<rparr>)" by blast
  with assms show ?thesis by simp
qed

lemma step_TaskReturn:
  assumes "Service s = Some sv" and "t \<in> set (wg s)"
  shows "\<exists>s'. step (TaskReturn t e) s = Returns s' \<and> Service s' = Some sv \<and>
           wg s' = remove1 t (wg s) \<and>
           err s' = (case err s of Some y \<Rightarrow> Some y | None \<Rightarrow> e)"
proof -
  have "\<exists>s1. (if t \<in> set (started s) then Returns s else task_start t s) = Returns s1 \<and>
          Service s1 = Some sv \<and> wg s1 = wg s \<and> err s1 = err s"
    using task_start_Some [OF assms(1), of t] assms(1) by auto
  then obtain s1 where
    s1: "(if t \<in> set (started s) then Returns s else task_start t s) = Returns s1"
      "Service s1 = Some sv" "wg s1 = wg s" "err s1 = err s"
    by blast
  from task_return_Some [OF s1(2), of t e] obtain s2 where
    s2: "task_return t e s1 = Returns s2" "Service s2 = Some sv" "wg s2 = wg s1"
      "err s2 = err s1"
    by blast
  have "step (TaskReturn t e) s =
          Returns ((group_done t e s2)\<lparr>started := removeAll t (started s2)\<rparr>)"
    using assms(2) s1(1) s2(1) by simp
  then show ?thesis
    using s1 s2 by (cases e; cases "err s") (simp_all add: group_done_def)
qed

text \<open>
  While every return in the events is the return of a running unit that has not returned
  before, the events run through, the units left are the ones that have not returned,
  and the errgroup holds the first non-nil error.
\<close>

lemma run_events_result:
  assumes "Service s = Some sv" and "distinct (wg s)"
    and "distinct (returned evs)" and "set (returned evs) \<subseteq> set (wg s)"
  shows "\<exists>s'. run_events evs s = Returns s' \<and> Service s' = Some sv \<and> distinct (wg s') \<and>
           set (wg s') = set (wg s) - set (returned evs) \<and>
           err s' = (case err s of Some y \<Rightarrow> Some y | None \<Rightarrow> first_error evs)"
  using assms
proof (induction evs arbitrary: s)
  case Nil
  then show ?case by (simp split: option.splits)
next
  case (Cons ev evs)
  show ?case
  proof (cases ev)
    case Cancel
    let ?s = "s\<lparr>ctx_done := True\<rparr>"
    have "\<exists>s'. run_events evs ?s = Returns s' \<and> Service s' = Some sv \<and> distinct (wg s') \<and>
           set (wg s') = set (wg ?s) - set (returned evs) \<and>
           err s' = (case err ?s of Some y \<Rightarrow> Some y | None \<Rightarrow> first_error evs)"
      using Cons.prems Cancel by (intro Cons.IH) simp_all
    then show ?thesis unfolding Cancel by (auto split: option.splits)
  next
    case WatcherRuns
    from watcher_Some [OF Cons.prems(1)] obtain s1 where
      s1: "watcher s = Returns s1" "Service s1 = Some sv" "wg s1 = wg s" "err s1 = err s"
      by blast
    have "\<exists>s'. run_events evs s1 = Returns s' \<and> Service s' = Some sv \<and> distinct (wg s') \<and>
           set (wg s') = set (wg s1) - set (returned evs) \<and>
           err s' = (case err s1 of Some y \<Rightarrow> Some y | None \<Rightarrow> first_error evs)"
      using Cons.prems WatcherRuns s1 by (intro Cons.IH) simp_all
    then show ?thesis unfolding WatcherRuns using s1 by (auto split: option.splits)
  next
    case (TaskStart t)
    from step_TaskStart [OF Cons.prems(1), of t] obtain s1 where
      s1: "step (TaskStart t) s = Returns s1" "Service s1 = Some sv" "wg s1 = wg s"
        "err s1 = err s"
      by blast
    have "\<exists>s'. run_events evs s1 = Returns s' \<and> Service s' = Some sv \<and> distinct (wg s') \<and>
           set (wg s') = set (wg s1) - set (returned evs) \<and>
           err s' = (case err s1 of Some y \<Rightarrow> Some y | None \<Rightarrow> first_error evs)"
      using Cons.prems TaskStart s1 by (intro Cons.IH) simp_all
    then obtain s' where
      s': "run_events evs s1 = Returns s'" "Service s' = Some sv" "distinct (wg s')"
        "set (wg s') = set (wg s1) - set (returned evs)"
        "err s' = (case err s1 of Some y \<Rightarrow> Some y | None \<Rightarrow> first_error evs)"
      by blast
    have "run_events (ev # evs) s = Returns s'"
      using s1(1) s'(1) TaskStart by simp
    then show ?thesis
      using s' s1 TaskStart by (auto split: option.splits)
  next
    case (TaskReturn t e)
    with Cons.prems have t: "t \<in> set (wg s)" "t \<notin> set (returned evs)" by simp_all
    from step_TaskReturn [OF Cons.prems(1) t(1)] obtain s1 where
      s1: "step (TaskReturn t e) s = Returns s1" "Service s1 = Some sv"
        "wg s1 = remove1 t (wg s)"
        "err s1 = (case err s of Some y \<Rightarrow> Some y | None \<Rightarrow> e)"
      by blast
    have "\<exists>s'. run_events evs s1 = Returns s' \<and> Service s' = Some sv \<and> distinct (wg s') \<and>
           set (wg s') = set (wg s1) - set (returned evs) \<and>
           err s' = (case err s1 of Some y \<Rightarrow> Some y | None \<Rightarrow> first_error evs)"
      using Cons.prems TaskReturn s1 t by (intro Cons.IH) auto
    then obtain s' where
      s': "run_events evs s1 = Returns s'" "Service s' = Some sv" "distinct (wg s')"
        "set (wg s') = set (wg s1) - set (returned evs)"
        "err s' = (case err s1 of Some y \<Rightarrow> Some y | None \<Rightarrow> first_error evs)"
      by blast
    have "set (wg s') = set (wg s) - set (returned (ev # evs))"
      using s'(4) s1(3) Cons.prems(2) TaskReturn by auto
    moreover have "err s' = (case err s of Some y \<Rightarrow> Some y | None \<Rightarrow> first_error (ev # evs))"
      using s'(5) s1(4) TaskReturn by (cases e; cases "err s") simp_all
    moreover have "run_events (ev # evs) s = Returns s'"
      using s1(1) s'(1) TaskReturn by simp
    ultimately show ?thesis using s'(2,3) by blast
  qed
qed

lemma first_error_all:
  "\<forall>t e. TaskReturn t e \<in> set evs \<longrightarrow> e = Some x \<Longrightarrow>
   first_error evs = (if returned evs = [] then None else Some x)"
proof (induction evs)
  case Nil
  then show ?case by simp
next
  case (Cons ev evs)
  from Cons.prems have rest: "\<forall>t e. TaskReturn t e \<in> set evs \<longrightarrow> e = Some x"
    by simp
  show ?case
  proof (cases ev)
    case (TaskReturn t e)
    with Cons.prems have "e = Some x" by simp
    then show ?thesis unfolding TaskReturn by simp
  qed (use Cons.IH [OF rest] in simp_all)
qed

lemma Run_spawn_waits:
  assumes "Run_spawn gin env s = Returns (s1, None)"
  shows "Service s1 = Service s \<and> err s1 = None \<and>
         wg s1 = mode_units (Getenv env ''SERVICE_PROTOCOL'')"
proof (cases "Service s")
  case None
  with assms show ?thesis
    by (auto simp: Run_spawn_def Let_def http_New_None mode_units_def split: if_splits)
next
  case (Some sv)
  with assms show ?thesis
    by (auto simp: Run_spawn_def Let_def http_New_Some mode_units_def split: if_splits)
qed

lemma Run_spawn_initialises:
  assumes "Service s = Some sv" and "initialises gin (Version s) sv"
  shows "\<exists>s1. Run_spawn gin env s = Returns (s1, None)"
  using assms by (simp add: Run_spawn_def Let_def http_New_Some)

lemma Run_old_spawn_initialises:
  assumes "Service s = Some sv" and "initialises gin (Version s) sv"
  shows "\<exists>s2. Run_old_spawn gin env s = Returns s2"
  using assms by (simp add: Run_old_spawn_def Let_def http_New_old_Some)

lemma Run_wait_result:
  "Run_wait s = (if wg s = [] then Returns (s\<lparr>ctx_done := True\<rparr>, err s) else Blocks)"
  by (simp add: Run_wait_def Let_def)

lemma server_New_mock: "server_New (Some mock_service) ''v1'' None [] = (Some mock_server, None)"
  by (simp add: server_New_def mock_server_def)

lemma initialises_mock: "initialises fresh_route ''v1'' mock_service"
  by (simp add: initialises_def mock_service_def registrations_def ping_def recognized_def
      fresh_route_def)

lemma Run_spawn_mock:
  "Run_spawn fresh_route Map.empty mock_server = Returns (mock_running, None)"
  using initialises_mock
  by (simp add: Run_spawn_def Let_def Getenv_def http_New_Some mock_server_def
      mock_running_def mock_service_def ping_def recognized_def)


lemma mock_starts_cancel:
  "run_events (starting_events @ [Cancel]) mock_running =
     Returns (mock_serving\<lparr>ctx_done := True\<rparr>)"
  by (simp add: starting_events_def mock_running_def mock_serving_def mock_server_def logf_def)

lemma Shutdown_DoneFirst:
  "Service s = Some sv \<Longrightarrow>
   Shutdown DoneFirst s =
     Returns (s\<lparr>ctx_done := cancel s \<or> ctx_done s,
                GRPCServer := (GRPCServer s)\<lparr>stopped := True\<rparr>,
                Listener := (Listener s)\<lparr>is_closed := True,
                  closes := closes (Listener s) @
                    [if is_closed (Listener s) \<or> GRPCServe \<in> set (started s)
                     then Some ListenerClosed else None]\<rparr>,
                logged := logged s @ [(Info, ''Stopping gRPC server...'', []),
                                      (Info, ''server shutdown complete'', [])]\<rparr>, None)"
  by (simp add: Shutdown_def stop_goroutine_def GracefulStop_def logf_def Close_def Let_def
      library_close_def)

lemma Shutdown_None:
  "Service s = None \<Longrightarrow> sel \<noteq> Neither \<Longrightarrow> Shutdown sel s = Panics"
  by (cases sel) (simp_all add: Shutdown_def stop_goroutine_def GracefulStop_def logf_def Let_def)

section \<open>The constructor of the HTTP service\<close>

text \<open>
  C10, as claimed, fails at two services that are not nil: one whose handler list holds
  a nil entry, where \<^verbatim>\<open>http.New\<close> panics on \<^verbatim>\<open>route.Method\<close>, and one that asks for
  the same GET route twice, where the router panics on the second registration. In both
  \<^verbatim>\<open>http.New\<close> returns neither an HTTPService nor an error.
\<close>

theorem http_New_panic_counterexample:
  "http_New fresh_route (Some \<lparr>Port = ''0'', HTTPHandlers = [Some ping, None]\<rparr>) ''v1'' [] =
     Panics \<and>
   http_New fresh_route (Some \<lparr>Port = ''0'', HTTPHandlers = [Some ping, Some ping]\<rparr>) ''v1'' [] =
     Panics"
  by (simp add: http_New_Some initialises_def registrations_def ping_def recognized_def
      fresh_route_def)

text \<open>
  C10, amended. \<^verbatim>\<open>http.New(svc, version)\<close> returns an error if and only if \<open>svc\<close> is
  nil, and the error comes with a nil HTTPService. For every non-nil \<open>svc\<close> that
  initialises (its handler list holds no nil entry, and gin's router takes, one after
  the other, the routes whose method is GET, PUT, POST or DELETE) it returns a non-nil
  HTTPService and a nil error; the routes registered are exactly those entries, in order,
  and every other entry is skipped with one warning that names its path. For a non-nil
  \<open>svc\<close> that does not initialise, \<^verbatim>\<open>http.New\<close> panics.
\<close>

theorem http_New_result:
  "http_New gin None version lg = Returns ((None, Some ServiceNil), lg) \<and>
   (initialises gin version sv \<longrightarrow>
      (\<exists>h. http_New gin (Some sv) version lg =
              Returns ((Some h, None),
                       lg @ map warn_unrecognized
                              (filter (\<lambda>r. \<not> recognized (Method r)) (map the (HTTPHandlers sv)))) \<and>
           routes (Engine h) =
             map (\<lambda>r. (Method r, ''/api/'' @ version, Path r, Handler r))
               (filter (\<lambda>r. recognized (Method r)) (map the (HTTPHandlers sv))) \<and>
           Server_h h = Engine h \<and> Service_h h = sv)) \<and>
   (\<not> initialises gin version sv \<longrightarrow> http_New gin (Some sv) version lg = Panics) \<and>
   ((\<exists>h x lg'. http_New gin svc version lg = Returns ((h, Some x), lg')) \<longleftrightarrow> svc = None)"
proof -
  have nil: "http_New gin None version lg = Returns ((None, Some ServiceNil), lg)"
    by (rule http_New_None)
  have ok: "\<exists>h. http_New gin (Some sv) version lg =
              Returns ((Some h, None),
                       lg @ map warn_unrecognized
                              (filter (\<lambda>r. \<not> recognized (Method r)) (map the (HTTPHandlers sv)))) \<and>
           routes (Engine h) =
             map (\<lambda>r. (Method r, ''/api/'' @ version, Path r, Handler r))
               (filter (\<lambda>r. recognized (Method r)) (map the (HTTPHandlers sv))) \<and>
           Server_h h = Engine h \<and> Service_h h = sv"
    if "initialises gin version sv"
    using that by (simp add: http_New_Some new_engine_def registrations_def)
  have bad: "http_New gin (Some sv) version lg = Panics" if "\<not> initialises gin version sv"
    using that by (simp add: http_New_Some)
  have iff: "(\<exists>h x lg'. http_New gin svc version lg = Returns ((h, Some x), lg')) \<longleftrightarrow> svc = None"
  proof (cases svc)
    case None
    then show ?thesis by (simp add: http_New_None)
  next
    case (Some sv')
    then show ?thesis by (simp add: http_New_Some)
  qed
  from nil ok bad iff show ?thesis by blast
qed

text \<open>The amended C10 at a service with a GET route and a PATCH route: the GET route
  is registered, the PATCH route is skipped with a warning; and at the service that asks
  for the GET route twice, which does not initialise.\<close>

theorem http_New_result_witness:
  "(\<exists>h. http_New fresh_route
           (Some \<lparr>Port = ''0'',
                   HTTPHandlers = [Some ping, Some \<lparr>Method = ''PATCH'', Path = ''/p'',
                                                   Handler = [1]\<rparr>]\<rparr>) ''v1'' [] =
          Returns ((Some h, None), [(Warn, ''unrecognized HTTP method for route %s'', [Str ''/p''])]) \<and>
        routes (Engine h) = [(''GET'', ''/api/v1'', ''/ping'', [0])]) \<and>
   http_New fresh_route (Some \<lparr>Port = ''0'', HTTPHandlers = [Some ping, Some ping]\<rparr>) ''v1'' [] =
     Panics"
proof -
  have yes: "initialises fresh_route ''v1''
               \<lparr>Port = ''0'', HTTPHandlers = [Some ping, Some \<lparr>Method = ''PATCH'', Path = ''/p'',
                                                               Handler = [1::nat]\<rparr>]\<rparr>"
    by (simp add: initialises_def registrations_def ping_def recognized_def fresh_route_def)
  have no: "\<not> initialises fresh_route ''v1'' \<lparr>Port = ''0'', HTTPHandlers = [Some ping, Some ping]\<rparr>"
    by (simp add: initialises_def registrations_def ping_def recognized_def fresh_route_def)
  from http_New_result [of fresh_route "''v1''" "[]"
      "\<lparr>Port = ''0'', HTTPHandlers = [Some ping, Some \<lparr>Method = ''PATCH'', Path = ''/p'',
                                                     Handler = [1]\<rparr>]\<rparr>" None] yes
  have "\<exists>h. http_New fresh_route
           (Some \<lparr>Port = ''0'',
                   HTTPHandlers = [Some ping, Some \<lparr>Method = ''PATCH'', Path = ''/p'',
                                                   Handler = [1]\<rparr>]\<rparr>) ''v1'' [] =
          Returns ((Some h, None), [(Warn, ''unrecognized HTTP method for route %s'', [Str ''/p''])]) \<and>
        routes (Engine h) = [(''GET'', ''/api/v1'', ''/ping'', [0])]"
    by (auto simp: ping_def recognized_def warn_unrecognized_def)
  moreover from http_New_result [of fresh_route "''v1''" "[]"
      "\<lparr>Port = ''0'', HTTPHandlers = [Some ping, Some ping]\<rparr>" None] no
  have "http_New fresh_route (Some \<lparr>Port = ''0'', HTTPHandlers = [Some ping, Some ping]\<rparr>) ''v1'' [] =
     Panics"
    by blast
  ultimately show ?thesis by blast
qed

section \<open>What Run returns\<close>




text \<open>
  C2, as claimed, fails on the mock server: the caller's context is cancelled, the
  watcher closes the listener, every unit returns the error of its closed listener, and
  Run returns that error, not nil.
\<close>

theorem Run_closure_counterexample:
  "result_of (Run fresh_route Map.empty (Cancel # closing_events) mock_server) =
     Returns (Some ListenerClosed)"
  unfolding result_of_def Run_def Run_spawn_mock
  by (simp add: closing_events_def watcher_def logf_def Close_def group_done_def Run_wait_def
      library_close_def mock_running_def mock_server_def)

text \<open>
  C2, amended. In every run on a Server with a non-nil service in which the HTTP service
  initialises, the shared context is cancelled, and every unit then returns the error of
  its closed listener, Run returns that error: a closure error seen after shutdown was
  initiated is returned like any other error.
\<close>

theorem Run_returns_closure_error:
  assumes spawn: "Run_spawn gin env s = Returns (s1, None)"
    and svc: "Service s = Some sv"
    and d: "distinct (returned evs)"
    and all: "set (returned evs) = set (wg s1)"
    and closed: "\<forall>t e. TaskReturn t e \<in> set evs \<longrightarrow> e = Some ListenerClosed"
  shows "\<exists>s'. Run gin env (Cancel # evs) s = Returns (s', Some ListenerClosed)"
proof -
  from Run_spawn_waits [OF spawn] svc have s1: "Service s1 = Some sv" "err s1 = None"
    "wg s1 = mode_units (Getenv env ''SERVICE_PROTOCOL'')" by simp_all
  have dw: "distinct (wg s1)" unfolding s1(3) by (simp add: mode_units_def)
  have "CmuxServe \<in> set (wg s1)" unfolding s1(3) by (simp add: mode_units_def)
  with all have ne: "returned evs \<noteq> []" by auto
  have "distinct (returned (Cancel # evs))" "set (returned (Cancel # evs)) \<subseteq> set (wg s1)"
    using d all by simp_all
  from run_events_result [OF s1(1) dw this] obtain s2 where
    s2: "run_events (Cancel # evs) s1 = Returns s2"
      "set (wg s2) = set (wg s1) - set (returned (Cancel # evs))"
      "err s2 = first_error (Cancel # evs)"
    using s1(2) by auto
  from s2(2) all have "wg s2 = []" by simp
  moreover have "err s2 = Some ListenerClosed"
    using s2(3) first_error_all [OF closed] ne by simp
  moreover have "Run gin env (Cancel # evs) s = Run_wait s2"
    using spawn s2(1) by (simp add: Run_def)
  ultimately show ?thesis by (simp add: Run_wait_result)
qed

text \<open>The amended C2 on the mock server, with the events of the counterexample.\<close>

theorem Run_returns_closure_error_witness:
  "\<exists>s'. Run fresh_route Map.empty (Cancel # closing_events) mock_server =
          Returns (s', Some ListenerClosed)"
proof -
  have svc: "Service mock_server = Some mock_service" by (simp add: mock_server_def)
  show ?thesis
    by (rule Run_returns_closure_error [OF Run_spawn_mock svc])
       (auto simp: closing_events_def mock_running_def)
qed

section \<open>Shutdown and the root listener\<close>




text \<open>
  C4, as claimed, fails on the mock server: Run starts, the units serve, Shutdown is
  called and gRPC's graceful stop closes the listener, the goroutine of Shutdown calls
  \<^verbatim>\<open>Close\<close> on the closed listener, and then the watcher of Run, woken by the
  cancellation, calls \<^verbatim>\<open>Close\<close> on it once more. Both calls of the code return the
  error of a closed listener.
\<close>

theorem double_close_counterexample:
  "and_then (Run_spawn fresh_route Map.empty mock_server)
     (\<lambda>(s, early). and_then (run_events starting_events s)
        (\<lambda>s0. and_then (Shutdown DoneFirst s0)
           (\<lambda>(s1, r). and_then (watcher s1) (\<lambda>s2. Returns (closes (Listener s2)))))) =
   Returns [Some ListenerClosed, Some ListenerClosed]"
  unfolding Run_spawn_mock
  by (simp add: Shutdown_def stop_goroutine_def GracefulStop_def logf_def Close_def Let_def
      watcher_def library_close_def starting_events_def mock_running_def mock_server_def)

lemma shutdowns_closes:
  "Service s = Some sv \<Longrightarrow>
   \<exists>s'. shutdowns n s = Returns s' \<and>
        closes (Listener s') =
          closes (Listener s) @
            (if n = 0 then []
             else (if is_closed (Listener s) \<or> GRPCServe \<in> set (started s)
                   then Some ListenerClosed else None) #
                  replicate (n - 1) (Some ListenerClosed))"
proof (induction n arbitrary: s)
  case 0
  then show ?case by simp
next
  case (Suc n)
  let ?s1 = "s\<lparr>ctx_done := cancel s \<or> ctx_done s,
                GRPCServer := (GRPCServer s)\<lparr>stopped := True\<rparr>,
                Listener := (Listener s)\<lparr>is_closed := True,
                  closes := closes (Listener s) @
                    [if is_closed (Listener s) \<or> GRPCServe \<in> set (started s)
                     then Some ListenerClosed else None]\<rparr>,
                logged := logged s @ [(Info, ''Stopping gRPC server...'', []),
                                      (Info, ''server shutdown complete'', [])]\<rparr>"
  have "Service ?s1 = Some sv" using Suc.prems by simp
  from Suc.IH [OF this] obtain s' where
    s': "shutdowns n ?s1 = Returns s'"
      "closes (Listener s') = closes (Listener ?s1) @
         (if n = 0 then []
          else (if is_closed (Listener ?s1) \<or> GRPCServe \<in> set (started ?s1)
                then Some ListenerClosed else None) #
               replicate (n - 1) (Some ListenerClosed))"
    by blast
  have "shutdowns (Suc n) s = Returns s'"
    using s'(1) by (simp add: Shutdown_DoneFirst [OF Suc.prems])
  moreover have "closes (Listener s') =
          closes (Listener s) @
            (if Suc n = 0 then []
             else (if is_closed (Listener s) \<or> GRPCServe \<in> set (started s)
                   then Some ListenerClosed else None) #
                  replicate (Suc n - 1) (Some ListenerClosed))"
    using s'(2) by (cases n) simp_all
  ultimately show ?case by blast
qed

text \<open>
  C4, amended. No closed flag guards the close of the root listener. On a Server with a
  non-nil service, every Shutdown that returns through \<^verbatim>\<open>done\<close> makes one call of
  \<^verbatim>\<open>Close\<close> of its own, so \<open>n\<close> such calls of Shutdown make \<open>n\<close> calls of \<^verbatim>\<open>Close\<close>,
  and the watcher of Run makes one when the context is done. A call on a listener that
  is closed already (by an earlier call, or by a server that closed the listener it
  served on) returns the error of a closed listener, which the code drops: so do all
  calls of the Shutdowns but the first, and the first as well when the listener was
  closed before or the gRPC unit was serving.
\<close>

theorem Close_is_unguarded:
  assumes "Service s = Some sv"
  shows "(\<exists>s' r. shutdowns n s = Returns s' \<and>
            closes (Listener s') =
              closes (Listener s) @
                (if n = 0 then [] else r # replicate (n - 1) (Some ListenerClosed)) \<and>
            (is_closed (Listener s) \<or> GRPCServe \<in> set (started s) \<longrightarrow>
               r = Some ListenerClosed)) \<and>
         (ctx_done s \<and> 0 < watchers s \<longrightarrow>
            (\<exists>s' r. watcher s = Returns s' \<and> is_closed (Listener s') \<and>
               closes (Listener s') = closes (Listener s) @ [r] \<and>
               (is_closed (Listener s) \<longrightarrow> r = Some ListenerClosed)))"
proof (intro conjI impI)
  from shutdowns_closes [OF assms, of n]
  show "\<exists>s' r. shutdowns n s = Returns s' \<and>
            closes (Listener s') =
              closes (Listener s) @
                (if n = 0 then [] else r # replicate (n - 1) (Some ListenerClosed)) \<and>
            (is_closed (Listener s) \<or> GRPCServe \<in> set (started s) \<longrightarrow>
               r = Some ListenerClosed)"
    by auto
next
  assume "ctx_done s \<and> 0 < watchers s"
  then show "\<exists>s' r. watcher s = Returns s' \<and> is_closed (Listener s') \<and>
               closes (Listener s') = closes (Listener s) @ [r] \<and>
               (is_closed (Listener s) \<longrightarrow> r = Some ListenerClosed)"
    using assms by (simp add: watcher_def logf_def Close_def Let_def)
qed

text \<open>The amended C4 on the mock server whose units serve and whose context has been
  cancelled: three Shutdown calls make three calls of \<^verbatim>\<open>Close\<close>, each on a closed
  listener; the watcher makes one call.\<close>

theorem Close_is_unguarded_witness:
  "and_then (Run_spawn fresh_route Map.empty mock_server)
     (\<lambda>(s, early). run_events (starting_events @ [Cancel]) s) =
     Returns (mock_serving\<lparr>ctx_done := True\<rparr>) \<and>
   (\<exists>s'. shutdowns 3 (mock_serving\<lparr>ctx_done := True\<rparr>) = Returns s' \<and>
         closes (Listener s') = [Some ListenerClosed, Some ListenerClosed, Some ListenerClosed]) \<and>
   (\<exists>s'. watcher (mock_serving\<lparr>ctx_done := True\<rparr>) = Returns s' \<and> is_closed (Listener s') \<and>
         length (closes (Listener s')) = 1)"
proof -
  have svc: "Service (mock_serving\<lparr>ctx_done := True\<rparr>) = Some mock_service"
    by (simp add: mock_serving_def mock_running_def mock_server_def)
  have reach: "and_then (Run_spawn fresh_route Map.empty mock_server)
     (\<lambda>(s, early). run_events (starting_events @ [Cancel]) s) =
     Returns (mock_serving\<lparr>ctx_done := True\<rparr>)"
    by (simp add: Run_spawn_mock mock_starts_cancel)
  from Close_is_unguarded [OF svc, of 3] reach show ?thesis
    by (auto simp: mock_serving_def mock_running_def mock_server_def numeral_3_eq_3)
qed

text \<open>A second Shutdown after a completed one, and Shutdown on a new Server.\<close>

lemma Shutdown_again:
  assumes first: "Shutdown DoneFirst s = Returns (s1, r1)"
  shows "r1 = None \<and>
      (\<exists>s2. Shutdown DoneFirst s1 = Returns (s2, None) \<and>
            s2\<lparr>logged := logged s1, Listener := Listener s1\<rparr> = s1 \<and>
            is_closed (Listener s2) = is_closed (Listener s1) \<and>
            closes (Listener s2) = closes (Listener s1) @ [Some ListenerClosed] \<and>
            logged s2 = logged s1 @ [(Info, ''Stopping gRPC server...'', []),
                                     (Info, ''server shutdown complete'', [])])"
proof (cases "Service s")
  case None
  with first show ?thesis by (simp add: Shutdown_None)
next
  case (Some sv)
  from first have r1: "r1 = None" and s1: "s1 = s\<lparr>ctx_done := cancel s \<or> ctx_done s,
              GRPCServer := (GRPCServer s)\<lparr>stopped := True\<rparr>,
              Listener := (Listener s)\<lparr>is_closed := True,
                closes := closes (Listener s) @
                  [if is_closed (Listener s) \<or> GRPCServe \<in> set (started s)
                   then Some ListenerClosed else None]\<rparr>,
              logged := logged s @ [(Info, ''Stopping gRPC server...'', []),
                                    (Info, ''server shutdown complete'', [])]\<rparr>"
    by (simp_all add: Shutdown_DoneFirst [OF Some])
  have svc1: "Service s1 = Some sv" using Some s1 by simp
  show ?thesis
    unfolding Shutdown_DoneFirst [OF svc1] using r1 by (simp add: s1)
qed

lemma Shutdown_after_New:
  assumes new: "server_New svc version listen lg = (Some s0, None)"
  shows "\<exists>s1 s2. Shutdown DoneFirst s0 = Returns (s1, None) \<and>
               Shutdown DoneFirst s1 = Returns (s2, None)"
proof -
  from new obtain sv where "Service s0 = Some sv"
    by (auto simp: server_New_def split: option.splits)
  then show ?thesis by (simp add: Shutdown_DoneFirst)
qed

text \<open>
  C7. When a call of Shutdown has completed (it returned through \<^verbatim>\<open>done\<close>), it
  returned nil, and a second call whose goroutine finishes before its deadline neither
  panics nor returns an error: it returns nil and leaves every field of the Server as
  the first call left it, the listener closed as before. All that the second call adds
  is its two informational log lines and one more call of \<^verbatim>\<open>Close\<close>, whose
  double-close error the code drops. The same holds before Run has ever been started: on
  the Server that \<^verbatim>\<open>server.New\<close> returns, two calls of Shutdown in a row both
  return nil.
\<close>

theorem Shutdown_twice:
  "(Shutdown DoneFirst s = Returns (s1, r1) \<longrightarrow>
      r1 = None \<and>
      (\<exists>s2. Shutdown DoneFirst s1 = Returns (s2, None) \<and>
            s2\<lparr>logged := logged s1, Listener := Listener s1\<rparr> = s1 \<and>
            is_closed (Listener s2) = is_closed (Listener s1) \<and>
            closes (Listener s2) = closes (Listener s1) @ [Some ListenerClosed] \<and>
            logged s2 = logged s1 @ [(Info, ''Stopping gRPC server...'', []),
                                     (Info, ''server shutdown complete'', [])])) \<and>
   (server_New svc version listen lg = (Some s0, None) \<longrightarrow>
      (\<exists>s1 s2. Shutdown DoneFirst s0 = Returns (s1, None) \<and>
               Shutdown DoneFirst s1 = Returns (s2, None)))"
  using Shutdown_again [of s s1 r1] Shutdown_after_New [of svc version listen lg s0]
  by blast

text \<open>C7 on the mock server, which is the Server that \<^verbatim>\<open>server.New\<close> returns for the
  mock service and on which Run has not been started: the first Shutdown returns nil, and
  so does the second.\<close>

theorem Shutdown_twice_witness:
  "server_New (Some mock_service) ''v1'' None [] = (Some mock_server, None) \<and>
   Shutdown DoneFirst mock_server =
     Returns (mock_server\<lparr>GRPCServer := \<lparr>stopped = True\<rparr>,
                Listener := \<lparr>is_closed = True, closes = [None]\<rparr>,
                logged := logged mock_server @ [(Info, ''Stopping gRPC server...'', []),
                                               (Info, ''server shutdown complete'', [])]\<rparr>, None) \<and>
   (\<exists>s2. Shutdown DoneFirst
           (mock_server\<lparr>GRPCServer := \<lparr>stopped = True\<rparr>,
              Listener := \<lparr>is_closed = True, closes = [None]\<rparr>,
              logged := logged mock_server @ [(Info, ''Stopping gRPC server...'', []),
                                             (Info, ''server shutdown complete'', [])]\<rparr>) =
         Returns (s2, None))"
proof -
  have first: "Shutdown DoneFirst mock_server =
     Returns (mock_server\<lparr>GRPCServer := \<lparr>stopped = True\<rparr>,
                Listener := \<lparr>is_closed = True, closes = [None]\<rparr>,
                logged := logged mock_server @ [(Info, ''Stopping gRPC server...'', []),
                                               (Info, ''server shutdown complete'', [])]\<rparr>, None)"
    by (simp add: Shutdown_def stop_goroutine_def GracefulStop_def logf_def Close_def Let_def
        library_close_def mock_server_def)
  from Shutdown_twice [of mock_server _ None] first server_New_mock show ?thesis by blast
qed

section \<open>The protocol mode\<close>

text \<open>
  C5, as claimed, fails at the mode \<^verbatim>\<open>rpc\<close>: with \<^verbatim>\<open>SERVICE_PROTOCOL=rpc\<close> Run starts
  the HTTP unit as well as the gRPC unit, because the value that disables the HTTP
  sub-server is \<^verbatim>\<open>grpc\<close>.
\<close>

theorem rpc_mode_counterexample:
  "spawned (Run_spawn fresh_route [''SERVICE_PROTOCOL'' \<mapsto> ''rpc''] mock_server) =
     Returns [GRPCServe, HTTPServe, CmuxServe]"
proof -
  have "Service mock_server = Some mock_service" "Version mock_server = ''v1''"
    by (simp_all add: mock_server_def)
  then show ?thesis
    using initialises_mock
    by (simp add: spawned_def Run_spawn_def Let_def Getenv_def http_New_Some)
qed

text \<open>
  C5, amended. Whenever Run has started its units and is at \<^verbatim>\<open>g.Wait()\<close>, then for
  every value of \<^verbatim>\<open>SERVICE_PROTOCOL\<close>: in the mode \<^verbatim>\<open>http\<close> it has started only the
  HTTP unit, in the mode \<^verbatim>\<open>grpc\<close> only the gRPC unit, and for every other value (not
  set, empty, \<^verbatim>\<open>rpc\<close>, ...) both; the cmux unit is started in each. Run does get there
  on every Server whose service is non-nil and initialises: no handler entry is nil and
  gin's router accepts each route that \<^verbatim>\<open>http.New\<close> registers.
\<close>

theorem Run_spawn_units:
  "(Run_spawn gin env s = Returns (s1, None) \<longrightarrow>
      wg s1 = (if Getenv env ''SERVICE_PROTOCOL'' = ''http'' then [HTTPServe, CmuxServe]
               else if Getenv env ''SERVICE_PROTOCOL'' = ''grpc'' then [GRPCServe, CmuxServe]
               else [GRPCServe, HTTPServe, CmuxServe])) \<and>
   (Service s = Some sv \<and> initialises gin (Version s) sv \<longrightarrow>
      (\<exists>s'. Run_spawn gin env s = Returns (s', None)))"
proof (intro conjI impI)
  assume "Run_spawn gin env s = Returns (s1, None)"
  from Run_spawn_waits [OF this]
  show "wg s1 = (if Getenv env ''SERVICE_PROTOCOL'' = ''http'' then [HTTPServe, CmuxServe]
               else if Getenv env ''SERVICE_PROTOCOL'' = ''grpc'' then [GRPCServe, CmuxServe]
               else [GRPCServe, HTTPServe, CmuxServe])"
    by (simp add: mode_units_def)
next
  assume "Service s = Some sv \<and> initialises gin (Version s) sv"
  then show "\<exists>s'. Run_spawn gin env s = Returns (s', None)"
    using Run_spawn_initialises [of s sv gin env] by simp
qed

text \<open>The amended C5 on the mock server: Run gets to its wait with the variable not
  set, where it has started the three units, and with the variable set to \<^verbatim>\<open>http\<close>,
  where it has started the HTTP unit and the cmux unit.\<close>

theorem Run_spawn_units_witness:
  "spawned (Run_spawn fresh_route Map.empty mock_server) =
     Returns [GRPCServe, HTTPServe, CmuxServe] \<and>
   spawned (Run_spawn fresh_route [''SERVICE_PROTOCOL'' \<mapsto> ''http''] mock_server) =
     Returns [HTTPServe, CmuxServe]"
proof -
  have svc: "Service mock_server = Some mock_service \<and>
             initialises fresh_route (Version mock_server) mock_service"
    using initialises_mock by (simp add: mock_server_def)
  have a: "spawned (Run_spawn fresh_route env mock_server) =
             Returns (if Getenv env ''SERVICE_PROTOCOL'' = ''http'' then [HTTPServe, CmuxServe]
               else if Getenv env ''SERVICE_PROTOCOL'' = ''grpc'' then [GRPCServe, CmuxServe]
               else [GRPCServe, HTTPServe, CmuxServe])" for env
  proof -
    from Run_spawn_units [of fresh_route env mock_server _ mock_service] svc
    obtain s' where s': "Run_spawn fresh_route env mock_server = Returns (s', None)"
      by blast
    from Run_spawn_units [of fresh_route env mock_server s' mock_service] s'
    show ?thesis by (simp add: spawned_def)
  qed
  show ?thesis by (simp add: a Getenv_def)
qed

text \<open>
  C6, as claimed, fails on the mock server: the same Server, and environments that
  differ in \<^verbatim>\<open>SERVICE_PROTOCOL\<close>, give different sets of units and different rules on
  the multiplexer, since Run itself reads the variable.
\<close>

theorem environment_counterexample:
  "and_then (Run_spawn fresh_route [''SERVICE_PROTOCOL'' \<mapsto> ''http''] mock_server)
     (\<lambda>(s, early). Returns (wg s, rules s)) =
     Returns ([HTTPServe, CmuxServe], [[HTTP1Fast]]) \<and>
   and_then (Run_spawn fresh_route [''SERVICE_PROTOCOL'' \<mapsto> ''grpc''] mock_server)
     (\<lambda>(s, early). Returns (wg s, rules s)) =
     Returns ([GRPCServe, CmuxServe], [grpc_rule])"
proof -
  have "Service mock_server = Some mock_service" "Version mock_server = ''v1''"
    by (simp_all add: mock_server_def)
  then show ?thesis
    using initialises_mock
    by (simp add: Run_spawn_def Let_def Getenv_def http_New_Some)
qed

text \<open>
  C6, amended. The protocol mode is not passed to Run: Run reads it from the
  environment variable \<^verbatim>\<open>SERVICE_PROTOCOL\<close> when it is invoked, and reads nothing else
  of the environment. Two executions of Run given the same Server and events, in
  environments that agree on \<^verbatim>\<open>SERVICE_PROTOCOL\<close>, behave the same; so do two
  executions of the older Run up to its wait.
\<close>

theorem Run_reads_SERVICE_PROTOCOL:
  assumes "Getenv env1 ''SERVICE_PROTOCOL'' = Getenv env2 ''SERVICE_PROTOCOL''"
  shows "Run gin env1 evs s = Run gin env2 evs s \<and>
         Run_old_spawn gin env1 s = Run_old_spawn gin env2 s"
  using assms by (simp add: Run_def Run_spawn_def Run_old_spawn_def)

text \<open>The amended C6 on the mock server: an environment with nothing set and one
  that sets only \<^verbatim>\<open>PORT\<close>.\<close>

theorem Run_reads_SERVICE_PROTOCOL_witness:
  "Run fresh_route Map.empty closing_events mock_server =
     Run fresh_route [''PORT'' \<mapsto> ''4000''] closing_events mock_server \<and>
   Run_old_spawn fresh_route Map.empty mock_server =
     Run_old_spawn fresh_route [''PORT'' \<mapsto> ''4000''] mock_server"
proof -
  have "Getenv Map.empty ''SERVICE_PROTOCOL'' = Getenv [''PORT'' \<mapsto> ''4000''] ''SERVICE_PROTOCOL''"
    by (simp add: Getenv_def)
  from Run_reads_SERVICE_PROTOCOL [OF this] show ?thesis by blast
qed

section \<open>The cmux unit in the newer and the older Run\<close>

lemma http_New_old_cases:
  "http_New_old gin svc version = Panics \<or>
   (\<exists>h. http_New_old gin svc version = Returns (Some h, None))"
proof (cases svc)
  case None
  then show ?thesis by (simp add: http_New_old_def)
next
  case (Some sv)
  show ?thesis unfolding Some http_New_old_Some by simp
qed

lemma Run_old_spawn_units:
  assumes "Run_old_spawn gin env s = Returns s2"
  shows "wg s2 = (if Getenv env ''SERVICE_PROTOCOL'' = ''http'' then [HTTPServe, CmuxServe]
                  else if Getenv env ''SERVICE_PROTOCOL'' = ''grpc'' then [GRPCServe]
                  else [GRPCServe, HTTPServe, CmuxServe])"
  using assms http_New_old_cases [of gin "Service s" "Version s"]
  by (auto simp: Run_old_spawn_def Let_def split: if_splits)

text \<open>
  C9. On every Server whose service is non-nil and initialises (no handler entry is nil
  and gin's router accepts each route), in every mode, the newer Run gets to its wait and
  has started the cmux unit exactly once, and the older Run gets to its wait and has
  started it once in every mode but \<^verbatim>\<open>grpc\<close>, where it has not started it. On any
  Server, whenever the newer Run gets to its wait it has started the cmux unit exactly
  once, and whenever the older Run does, once in every mode but \<^verbatim>\<open>grpc\<close>. In the mode
  \<^verbatim>\<open>grpc\<close> the newer Run always gets to its wait (it does not create the HTTP service)
  and starts the gRPC unit and the cmux unit, while the older Run starts the gRPC unit
  alone: the two are not equivalent there.
\<close>

theorem cmux_unit_new_and_old:
  "(Service s = Some sv \<and> initialises gin (Version s) sv \<longrightarrow>
      (\<exists>s'. Run_spawn gin env s = Returns (s', None) \<and> count_list (wg s') CmuxServe = 1) \<and>
      (\<exists>s'. Run_old_spawn gin env s = Returns s' \<and>
            count_list (wg s') CmuxServe =
              (if Getenv env ''SERVICE_PROTOCOL'' = ''grpc'' then 0 else 1))) \<and>
   (Run_spawn gin env s = Returns (s1, None) \<longrightarrow> count_list (wg s1) CmuxServe = 1) \<and>
   (Run_old_spawn gin env s = Returns s2 \<longrightarrow>
      count_list (wg s2) CmuxServe = (if Getenv env ''SERVICE_PROTOCOL'' = ''grpc'' then 0 else 1)) \<and>
   (Getenv env ''SERVICE_PROTOCOL'' = ''grpc'' \<longrightarrow>
      spawned (Run_spawn gin env s) = Returns [GRPCServe, CmuxServe] \<and>
      and_then (Run_old_spawn gin env s) (\<lambda>s'. Returns (wg s')) = Returns [GRPCServe])"
proof -
  have new: "count_list (wg s') CmuxServe = 1" if "Run_spawn gin env s = Returns (s', None)" for s'
    using Run_spawn_waits [OF that] by (simp add: mode_units_def)
  have old: "count_list (wg s') CmuxServe =
               (if Getenv env ''SERVICE_PROTOCOL'' = ''grpc'' then 0 else 1)"
    if "Run_old_spawn gin env s = Returns s'" for s'
    using Run_old_spawn_units [OF that] by simp
  have reach: "(\<exists>s'. Run_spawn gin env s = Returns (s', None) \<and>
                    count_list (wg s') CmuxServe = 1) \<and>
               (\<exists>s'. Run_old_spawn gin env s = Returns s' \<and>
                    count_list (wg s') CmuxServe =
                      (if Getenv env ''SERVICE_PROTOCOL'' = ''grpc'' then 0 else 1))"
    if "Service s = Some sv \<and> initialises gin (Version s) sv"
    using Run_spawn_initialises [of s sv gin env] Run_old_spawn_initialises [of s sv gin env]
      that new old by blast
  have grpc: "spawned (Run_spawn gin env s) = Returns [GRPCServe, CmuxServe] \<and>
      and_then (Run_old_spawn gin env s) (\<lambda>s'. Returns (wg s')) = Returns [GRPCServe]"
    if "Getenv env ''SERVICE_PROTOCOL'' = ''grpc''"
    using that by (simp add: spawned_def Run_spawn_def Run_old_spawn_def Let_def)
  from new [of s1] old [of s2] reach grpc show ?thesis by blast
qed

text \<open>C9 on the mock server: with the variable not set, and in the mode \<^verbatim>\<open>http\<close>, the
  newer and the older Run both get to their wait with the cmux unit started once; in the
  mode \<^verbatim>\<open>grpc\<close> the newer Run starts it and the older Run does not.\<close>

theorem cmux_unit_new_and_old_witness:
  "(\<exists>s'. Run_spawn fresh_route Map.empty mock_server = Returns (s', None) \<and>
         count_list (wg s') CmuxServe = 1) \<and>
   (\<exists>s'. Run_old_spawn fresh_route Map.empty mock_server = Returns s' \<and>
         count_list (wg s') CmuxServe = 1) \<and>
   (\<exists>s'. Run_spawn fresh_route [''SERVICE_PROTOCOL'' \<mapsto> ''http''] mock_server = Returns (s', None) \<and>
         count_list (wg s') CmuxServe = 1) \<and>
   (\<exists>s'. Run_old_spawn fresh_route [''SERVICE_PROTOCOL'' \<mapsto> ''http''] mock_server = Returns s' \<and>
         count_list (wg s') CmuxServe = 1) \<and>
   spawned (Run_spawn fresh_route [''SERVICE_PROTOCOL'' \<mapsto> ''grpc''] mock_server) =
     Returns [GRPCServe, CmuxServe] \<and>
   and_then (Run_old_spawn fresh_route [''SERVICE_PROTOCOL'' \<mapsto> ''grpc''] mock_server)
     (\<lambda>s'. Returns (wg s')) = Returns [GRPCServe]"
proof -
  have svc: "Service mock_server = Some mock_service \<and>
             initialises fresh_route (Version mock_server) mock_service"
    using initialises_mock by (simp add: mock_server_def)
  have unset: "Getenv Map.empty ''SERVICE_PROTOCOL'' \<noteq> ''grpc''"
    and http: "Getenv [''SERVICE_PROTOCOL'' \<mapsto> ''http''] ''SERVICE_PROTOCOL'' \<noteq> ''grpc''"
    and grpc: "Getenv [''SERVICE_PROTOCOL'' \<mapsto> ''grpc''] ''SERVICE_PROTOCOL'' = ''grpc''"
    by (simp_all add: Getenv_def)
  from cmux_unit_new_and_old [of mock_server mock_service fresh_route Map.empty _ _] svc unset
  have a: "(\<exists>s'. Run_spawn fresh_route Map.empty mock_server = Returns (s', None) \<and>
         count_list (wg s') CmuxServe = 1) \<and>
   (\<exists>s'. Run_old_spawn fresh_route Map.empty mock_server = Returns s' \<and>
         count_list (wg s') CmuxServe = 1)"
    by simp
  from cmux_unit_new_and_old [of mock_server mock_service fresh_route
      "[''SERVICE_PROTOCOL'' \<mapsto> ''http'']" _ _] svc http
  have b: "(\<exists>s'. Run_spawn fresh_route [''SERVICE_PROTOCOL'' \<mapsto> ''http''] mock_server = Returns (s', None) \<and>
         count_list (wg s') CmuxServe = 1) \<and>
   (\<exists>s'. Run_old_spawn fresh_route [''SERVICE_PROTOCOL'' \<mapsto> ''http''] mock_server = Returns s' \<and>
         count_list (wg s') CmuxServe = 1)"
    by simp
  from cmux_unit_new_and_old [of mock_server mock_service fresh_route
      "[''SERVICE_PROTOCOL'' \<mapsto> ''grpc'']" _ _] grpc
  have c: "spawned (Run_spawn fresh_route [''SERVICE_PROTOCOL'' \<mapsto> ''grpc''] mock_server) =
     Returns [GRPCServe, CmuxServe] \<and>
   and_then (Run_old_spawn fresh_route [''SERVICE_PROTOCOL'' \<mapsto> ''grpc''] mock_server)
     (\<lambda>s'. Returns (wg s')) = Returns [GRPCServe]"
    by blast
  from a b c show ?thesis by blast
qed

end
